theory Spec2Isabelle
  imports Main "HOL-Library.Word"
begin

unbundle bit_operations_syntax

section \<open>Python values used by the service\<close>

text \<open>
  The service is \<^verbatim>\<open>src/server2.py\<close>. Its values are Python \<^verbatim>\<open>bytes\<close> (lists of
  8-bit words) and Python \<^verbatim>\<open>str\<close> (lists of Unicode code points, as natural numbers:
  a \<^verbatim>\<open>str\<close> may hold a lone surrogate, which has no UTF-8 encoding). String constants
  of the source are written as HOL strings and turned into code points by \<open>ascii\<close>.
\<close>

type_synonym byte = "8 word"
type_synonym bytes = "byte list"
type_synonym pystr = "nat list"

definition ascii :: "string \<Rightarrow> pystr" where
  "ascii s = map of_char s"

text \<open>The exceptions that the modelled code can meet.\<close>

datatype py_exn =
    ValueError
  | UnicodeEncodeError
  | OverflowError
  | InvalidSignature
  | LibraryError

subsection \<open>\<^verbatim>\<open>str.encode('utf-8')\<close>\<close>

text \<open>
  One code point to its UTF-8 bytes. The surrogates \<open>0xD800..0xDFFF\<close> raise
  \<^verbatim>\<open>UnicodeEncodeError\<close>; numbers from \<open>0x110000\<close> on are no code points of a
  Python \<^verbatim>\<open>str\<close> and are refused alike.
\<close>

definition utf8_char :: "nat \<Rightarrow> py_exn + bytes" where
  "utf8_char c =
     (if c < 0x80 then Inr [of_nat c]
      else if c < 0x800 then Inr [of_nat (0xC0 + c div 64), of_nat (0x80 + c mod 64)]
      else if 0xD800 \<le> c \<and> c < 0xE000 then Inl UnicodeEncodeError
      else if c < 0x10000 then
        Inr [of_nat (0xE0 + c div 4096), of_nat (0x80 + (c div 64) mod 64),
             of_nat (0x80 + c mod 64)]
      else if c < 0x110000 then
        Inr [of_nat (0xF0 + c div 262144), of_nat (0x80 + (c div 4096) mod 64),
             of_nat (0x80 + (c div 64) mod 64), of_nat (0x80 + c mod 64)]
      else Inl UnicodeEncodeError)"

fun str_encode :: "pystr \<Rightarrow> py_exn + bytes" where
  "str_encode [] = Inr []"
| "str_encode (c # cs) =
     (case utf8_char c of
        Inl e \<Rightarrow> Inl e
      | Inr bs \<Rightarrow> (case str_encode cs of Inl e \<Rightarrow> Inl e | Inr rest \<Rightarrow> Inr (bs @ rest)))"

subsection \<open>\<^verbatim>\<open>bytes.hex()\<close> and \<^verbatim>\<open>bytes.fromhex\<close>\<close>

definition hex_digit :: "nat \<Rightarrow> nat" where
  "hex_digit d = (if d < 10 then 48 + d else 87 + d)"

fun bytes_hex :: "bytes \<Rightarrow> pystr" where
  "bytes_hex [] = []"
| "bytes_hex (b # bs) = hex_digit (unat b div 16) # hex_digit (unat b mod 16) # bytes_hex bs"

text \<open>The value of a hexadecimal digit, \<open>None\<close> for every other code point.\<close>

definition hex_value :: "nat \<Rightarrow> nat option" where
  "hex_value c =
     (if 48 \<le> c \<and> c \<le> 57 then Some (c - 48)
      else if 97 \<le> c \<and> c \<le> 102 then Some (c - 87)
      else if 65 \<le> c \<and> c \<le> 70 then Some (c - 55)
      else None)"

text \<open>ASCII white space, which \<^verbatim>\<open>bytes.fromhex\<close> skips between two bytes.\<close>

definition is_space :: "nat \<Rightarrow> bool" where
  "is_space c = (c = 32 \<or> (9 \<le> c \<and> c \<le> 13))"

text \<open>
  \<^verbatim>\<open>bytes.fromhex\<close>: white space is skipped before a pair of digits; a code point that
  is no digit, a digit with no partner (an odd count) and white space inside a pair raise
  \<^verbatim>\<open>ValueError\<close>.
\<close>

fun bytes_fromhex :: "pystr \<Rightarrow> py_exn + bytes" where
  "bytes_fromhex [] = Inr []"
| "bytes_fromhex [c] = (if is_space c then Inr [] else Inl ValueError)"
| "bytes_fromhex (c # d # cs) =
     (if is_space c then bytes_fromhex (d # cs)
      else (case hex_value c of
              None \<Rightarrow> Inl ValueError
            | Some hi \<Rightarrow>
                (case hex_value d of
                   None \<Rightarrow> Inl ValueError
                 | Some lo \<Rightarrow>
                     (case bytes_fromhex cs of
                        Inl e \<Rightarrow> Inl e
                      | Inr rest \<Rightarrow> Inr (of_nat (16 * hi + lo) # rest)))))"

subsection \<open>\<^verbatim>\<open>base64.b64encode\<close>\<close>

text \<open>
  The alphabet \<^verbatim>\<open>A-Z a-z 0-9 + /\<close>: the code point of the digit with value \<open>i\<close>.
\<close>

definition b64_char :: "nat \<Rightarrow> nat" where
  "b64_char i =
     (if i < 26 then 65 + i
      else if i < 52 then 71 + i
      else if i < 62 then i - 4
      else if i = 62 then 43
      else 47)"

definition b64_pad :: "nat" where
  "b64_pad = 61"

fun b64encode :: "bytes \<Rightarrow> pystr" where
  "b64encode [] = []"
| "b64encode [a] =
     [b64_char (unat a div 4), b64_char (unat a mod 4 * 16), b64_pad, b64_pad]"
| "b64encode [a, b] =
     [b64_char (unat a div 4), b64_char (unat a mod 4 * 16 + unat b div 16),
      b64_char (unat b mod 16 * 4), b64_pad]"
| "b64encode (a # b # c # rest) =
     [b64_char (unat a div 4), b64_char (unat a mod 4 * 16 + unat b div 16),
      b64_char (unat b mod 16 * 4 + unat c div 64), b64_char (unat c mod 64)]
     @ b64encode rest"

text \<open>
  The standard decoder (RFC 4648, with padding), the inverse that the round trip of the
  armor body is stated with: four characters give three bytes, \<open>=\<close> may only end the
  last group, anything else is refused.
\<close>

definition b64_index :: "nat \<Rightarrow> nat option" where
  "b64_index c =
     (if 65 \<le> c \<and> c \<le> 90 then Some (c - 65)
      else if 97 \<le> c \<and> c \<le> 122 then Some (c - 71)
      else if 48 \<le> c \<and> c \<le> 57 then Some (c + 4)
      else if c = 43 then Some 62
      else if c = 47 then Some 63
      else None)"

fun b64decode :: "pystr \<Rightarrow> bytes option" where
  "b64decode [] = Some []"
| "b64decode [w, x, y, z] =
     (case (b64_index w, b64_index x) of
        (Some i, Some j) \<Rightarrow>
          (if y = b64_pad \<and> z = b64_pad then Some [of_nat (i * 4 + j div 16)]
           else (case b64_index y of
             None \<Rightarrow> None
           | Some k \<Rightarrow>
               (if z = b64_pad
                then Some [of_nat (i * 4 + j div 16), of_nat (j mod 16 * 16 + k div 4)]
                else (case b64_index z of
                  None \<Rightarrow> None
                | Some l \<Rightarrow>
                    Some [of_nat (i * 4 + j div 16), of_nat (j mod 16 * 16 + k div 4),
                          of_nat (k mod 4 * 64 + l)]))))
      | _ \<Rightarrow> None)"
| "b64decode (w # x # y # z # rest) =
     (case (b64_index w, b64_index x, b64_index y, b64_index z) of
        (Some i, Some j, Some k, Some l) \<Rightarrow>
          (case b64decode rest of
             None \<Rightarrow> None
           | Some bs \<Rightarrow>
               Some (of_nat (i * 4 + j div 16) # of_nat (j mod 16 * 16 + k div 4)
                     # of_nat (k mod 4 * 64 + l) # bs))
      | _ \<Rightarrow> None)"
| "b64decode _ = None"

subsection \<open>\<^verbatim>\<open>hashlib.sha256\<close>\<close>

text \<open>
  SHA-256 as FIPS 180-4 defines it and \<^verbatim>\<open>hashlib\<close> computes it: the message is
  padded to a multiple of 64 bytes, and each block of 64 bytes updates eight 32-bit words
  in 64 rounds. \<open>sha256 m\<close> is \<^verbatim>\<open>sha256(m).digest()\<close>.
\<close>

type_synonym word32 = "32 word"
type_synonym sha_state =
  "word32 \<times> word32 \<times> word32 \<times> word32 \<times> word32 \<times> word32 \<times> word32 \<times> word32"

definition sha256_k :: "word32 list" where
  "sha256_k =
    [0x428A2F98, 0x71374491, 0xB5C0FBCF, 0xE9B5DBA5, 0x3956C25B, 0x59F111F1, 0x923F82A4, 0xAB1C5ED5,
     0xD807AA98, 0x12835B01, 0x243185BE, 0x550C7DC3, 0x72BE5D74, 0x80DEB1FE, 0x9BDC06A7, 0xC19BF174,
     0xE49B69C1, 0xEFBE4786, 0x0FC19DC6, 0x240CA1CC, 0x2DE92C6F, 0x4A7484AA, 0x5CB0A9DC, 0x76F988DA,
     0x983E5152, 0xA831C66D, 0xB00327C8, 0xBF597FC7, 0xC6E00BF3, 0xD5A79147, 0x06CA6351, 0x14292967,
     0x27B70A85, 0x2E1B2138, 0x4D2C6DFC, 0x53380D13, 0x650A7354, 0x766A0ABB, 0x81C2C92E, 0x92722C85,
     0xA2BFE8A1, 0xA81A664B, 0xC24B8B70, 0xC76C51A3, 0xD192E819, 0xD6990624, 0xF40E3585, 0x106AA070,
     0x19A4C116, 0x1E376C08, 0x2748774C, 0x34B0BCB5, 0x391C0CB3, 0x4ED8AA4A, 0x5B9CCA4F, 0x682E6FF3,
     0x748F82EE, 0x78A5636F, 0x84C87814, 0x8CC70208, 0x90BEFFFA, 0xA4506CEB, 0xBEF9A3F7, 0xC67178F2]"

definition sha256_init :: sha_state where
  "sha256_init =
    (0x6A09E667, 0xBB67AE85, 0x3C6EF372, 0xA54FF53A, 0x510E527F, 0x9B05688C, 0x1F83D9AB, 0x5BE0CD19)"

definition ch :: "word32 \<Rightarrow> word32 \<Rightarrow> word32 \<Rightarrow> word32" where
  "ch x y z = (x AND y) XOR (NOT x AND z)"

definition maj :: "word32 \<Rightarrow> word32 \<Rightarrow> word32 \<Rightarrow> word32" where
  "maj x y z = (x AND y) XOR (x AND z) XOR (y AND z)"

definition big_sigma0 :: "word32 \<Rightarrow> word32" where
  "big_sigma0 x = word_rotr 2 x XOR word_rotr 13 x XOR word_rotr 22 x"

definition big_sigma1 :: "word32 \<Rightarrow> word32" where
  "big_sigma1 x = word_rotr 6 x XOR word_rotr 11 x XOR word_rotr 25 x"

definition small_sigma0 :: "word32 \<Rightarrow> word32" where
  "small_sigma0 x = word_rotr 7 x XOR word_rotr 18 x XOR drop_bit 3 x"

definition small_sigma1 :: "word32 \<Rightarrow> word32" where
  "small_sigma1 x = word_rotr 17 x XOR word_rotr 19 x XOR drop_bit 10 x"

text \<open>The length in bits as eight bytes, most significant first.\<close>

definition be64_bytes :: "64 word \<Rightarrow> bytes" where
  "be64_bytes w = map (\<lambda>i. ucast (drop_bit (8 * i) w)) [7, 6, 5, 4, 3, 2, 1, 0]"

definition sha256_pad :: "bytes \<Rightarrow> bytes" where
  "sha256_pad m =
     m @ [0x80] @ replicate ((119 - length m mod 64) mod 64) 0
     @ be64_bytes (of_nat (8 * length m))"

fun be32_words :: "bytes \<Rightarrow> word32 list" where
  "be32_words (a # b # c # d # rest) =
     (push_bit 24 (ucast a) OR push_bit 16 (ucast b) OR push_bit 8 (ucast c) OR ucast d)
     # be32_words rest"
| "be32_words _ = []"

definition be32_bytes :: "word32 \<Rightarrow> bytes" where
  "be32_bytes w = [ucast (drop_bit 24 w), ucast (drop_bit 16 w), ucast (drop_bit 8 w), ucast w]"

fun schedule :: "nat \<Rightarrow> word32 list \<Rightarrow> word32 list" where
  "schedule 0 w = w"
| "schedule (Suc n) w =
     (let t = length w in
      schedule n (w @ [small_sigma1 (w ! (t - 2)) + w ! (t - 7)
                        + small_sigma0 (w ! (t - 15)) + w ! (t - 16)]))"

fun sha256_round :: "sha_state \<Rightarrow> word32 \<times> word32 \<Rightarrow> sha_state" where
  "sha256_round (a, b, c, d, e, f, g, h) (k, w) =
     (let t1 = h + big_sigma1 e + ch e f g + k + w;
          t2 = big_sigma0 a + maj a b c
      in (t1 + t2, a, b, c, d + t1, e, f, g))"

fun sha256_add :: "sha_state \<Rightarrow> sha_state \<Rightarrow> sha_state" where
  "sha256_add (a, b, c, d, e, f, g, h) (a', b', c', d', e', f', g', h') =
     (a + a', b + b', c + c', d + d', e + e', f + f', g + g', h + h')"

definition sha256_block :: "sha_state \<Rightarrow> bytes \<Rightarrow> sha_state" where
  "sha256_block s block =
     sha256_add s (foldl sha256_round s (zip sha256_k (schedule 48 (be32_words block))))"

function sha256_blocks :: "sha_state \<Rightarrow> bytes \<Rightarrow> sha_state" where
  "sha256_blocks s m =
     (if length m < 64 then s else sha256_blocks (sha256_block s (take 64 m)) (drop 64 m))"
  by pat_completeness auto
termination
  by (relation "measure (\<lambda>(s, m). length m)") auto

fun sha256_digest :: "sha_state \<Rightarrow> bytes" where
  "sha256_digest (a, b, c, d, e, f, g, h) =
     be32_bytes a @ be32_bytes b @ be32_bytes c @ be32_bytes d
     @ be32_bytes e @ be32_bytes f @ be32_bytes g @ be32_bytes h"

definition sha256 :: "bytes \<Rightarrow> bytes" where
  "sha256 m = sha256_digest (sha256_blocks sha256_init (sha256_pad m))"

section \<open>The armor encoder\<close>

text \<open>
  \<^verbatim>\<open>range(0, n, step)\<close> for a positive step, the slice \<^verbatim>\<open>s[i:j]\<close> for
  \<open>0 \<le> i \<le> j\<close> (Python cuts a slice off at the end of the string) and
  \<^verbatim>\<open>sep.join(lines)\<close>.
\<close>

definition py_range :: "nat \<Rightarrow> nat \<Rightarrow> nat list" where
  "py_range n step = map (\<lambda>k. k * step) [0..<(n + step - 1) div step]"

definition slice :: "'a list \<Rightarrow> nat \<Rightarrow> nat \<Rightarrow> 'a list" where
  "slice s i j = take (j - i) (drop i s)"

fun str_join :: "pystr \<Rightarrow> pystr list \<Rightarrow> pystr" where
  "str_join sep [] = []"
| "str_join sep [l] = l"
| "str_join sep (l # m # ls) = l @ sep @ str_join sep (m # ls)"

definition newline :: pystr where
  "newline = [10]"

text \<open>
  \<^verbatim>\<open>create_pgp_armor(data, header_type, comment=None)\<close>. The list \<open>lines\<close> is built
  as the source builds it; \<^verbatim>\<open>if comment:\<close> holds for a comment that is given and not
  the empty string. The loop appends one slice of the base64 text for each
  \<open>i\<close> of \<^verbatim>\<open>range(0, len(b64_data), 64)\<close>.
\<close>

definition armor_lines :: "bytes \<Rightarrow> pystr \<Rightarrow> pystr option \<Rightarrow> pystr list" where
  "armor_lines data header_type comment =
     (let armor_header = ascii ''-----BEGIN PGP '' @ header_type @ ascii ''-----'';
          armor_footer = ascii ''-----END PGP '' @ header_type @ ascii ''-----'';
          lines0 = [armor_header];
          lines1 = (case comment of
                      None \<Rightarrow> lines0
                    | Some c \<Rightarrow> if c = [] then lines0 else lines0 @ [ascii ''Comment: '' @ c]);
          lines2 = lines1 @ [[]];
          b64_data = b64encode data;
          lines3 = foldl (\<lambda>ls i. ls @ [slice b64_data i (i + 64)]) lines2
                     (py_range (length b64_data) 64);
          checksum = b64encode (take 3 (sha256 data));
          lines4 = lines3 @ [ascii ''='' @ checksum]
      in lines4 @ [armor_footer])"

definition create_pgp_armor :: "bytes \<Rightarrow> pystr \<Rightarrow> pystr option \<Rightarrow> pystr" where
  "create_pgp_armor data header_type comment =
     str_join newline (armor_lines data header_type comment)"

section \<open>The signature library\<close>

text \<open>
  \<^verbatim>\<open>cryptography\<close>'s Ed25519 is not part of the repository: the service is modelled
  over any library with these operations. \<open>from_private_bytes\<close> may raise; \<open>verify\<close>
  returns \<open>None\<close> when it returns normally and the exception when it raises one.
\<close>

record ('sk, 'pk) ed25519 =
  from_private_bytes :: "bytes \<Rightarrow> py_exn + 'sk"
  public_key_of :: "'sk \<Rightarrow> 'pk"
  private_bytes :: "'sk \<Rightarrow> bytes"
  public_bytes :: "'pk \<Rightarrow> bytes"
  sign :: "'sk \<Rightarrow> bytes \<Rightarrow> bytes"
  verify :: "'pk \<Rightarrow> bytes \<Rightarrow> bytes \<Rightarrow> py_exn option"

section \<open>Sessions and responses\<close>

text \<open>
  An entry of the dictionary \<^verbatim>\<open>active_keys\<close> (\<open>key_method\<close> is its entry
  \<^verbatim>\<open>'method'\<close>), and the dictionary itself, keyed by the session id.
\<close>

record ('sk, 'pk) key_data =
  private_key :: 'sk
  public_key :: 'pk
  created :: nat
  key_method :: string

type_synonym ('sk, 'pk) active_keys = "pystr \<rightharpoonup> ('sk, 'pk) key_data"

text \<open>
  The text of an \<^verbatim>\<open>"error"\<close> entry: a constant of the source, a constant followed by
  \<^verbatim>\<open>str(e)\<close> of the exception caught, or a constant followed by the text a
  collaborator reported.
\<close>

datatype error_msg =
    Msg string
  | MsgExn string py_exn
  | MsgText string pystr

text \<open>
  What a route returns: \<open>JsonError m status\<close> is \<^verbatim>\<open>jsonify({"error": m}), status\<close>;
  \<open>JsonVerdict v m\<close> is \<^verbatim>\<open>{"error": None, "valid": v, "message": m}\<close>;
  \<open>JsonSigned\<close> holds \<^verbatim>\<open>signed_message\<close>, \<^verbatim>\<open>signature\<close> and
  \<^verbatim>\<open>message_hash\<close>; \<open>SendFile\<close> holds the content, the download name and the MIME
  type; \<open>JsonKeys\<close> holds \<^verbatim>\<open>warning\<close>, \<^verbatim>\<open>private_key\<close>, \<^verbatim>\<open>public_key\<close>,
  \<^verbatim>\<open>iris_codes_count\<close>, \<^verbatim>\<open>method\<close> and \<^verbatim>\<open>session_id\<close>; \<open>Uncaught\<close> is an
  exception that leaves the route.
\<close>

datatype response =
    JsonError error_msg nat
  | JsonVerdict bool string
  | JsonSigned pystr pystr pystr
  | SendFile bytes pystr string
  | JsonKeys "string option" pystr pystr "nat option" string pystr
  | Uncaught py_exn

section \<open>Exporting keys\<close>

text \<open>\<^verbatim>\<open>n.to_bytes(4, 'big')\<close> of a Python integer.\<close>

definition to_bytes4 :: "int \<Rightarrow> py_exn + bytes" where
  "to_bytes4 n =
     (if n < 0 \<or> 2 ^ 32 \<le> n then Inl OverflowError
      else Inr [of_int (n div 2 ^ 24), of_int (n div 2 ^ 16), of_int (n div 2 ^ 8), of_int n])"

text \<open>
  \<^verbatim>\<open>ed25519_to_pgp_format(private_key, public_key)\<close>, with \<open>timestamp\<close> the value of
  \<^verbatim>\<open>int(time.time())\<close>.
\<close>

definition ed25519_to_pgp_format ::
  "('sk, 'pk) ed25519 \<Rightarrow> int \<Rightarrow> 'sk \<Rightarrow> 'pk \<Rightarrow> py_exn + (bytes \<times> bytes)" where
  "ed25519_to_pgp_format lib timestamp priv pub =
     (let private_bytes' = private_bytes lib priv;
          public_bytes' = public_bytes lib pub
      in case to_bytes4 timestamp of
           Inl e \<Rightarrow> Inl e
         | Inr ts \<Rightarrow>
             Inr ([0x04] @ ts @ [0x16] @ private_bytes' @ public_bytes',
                  [0x04] @ ts @ [0x16] @ public_bytes'))"

text \<open>
  The route \<^verbatim>\<open>/download_keys/<key_type>/<session_id>\<close>. Every route is a function of
  \<^verbatim>\<open>active_keys\<close> that returns its response and the dictionary it leaves.
\<close>

definition send_armor :: "pystr \<Rightarrow> pystr \<Rightarrow> response" where
  "send_armor armor_data filename =
     (case str_encode armor_data of
        Inl e \<Rightarrow> JsonError (MsgExn ''Key generation failed: '' e) 500
      | Inr content \<Rightarrow> SendFile content filename ''application/pgp-keys'')"

definition download_keys ::
  "('sk, 'pk) ed25519 \<Rightarrow> int \<Rightarrow> ('sk, 'pk) active_keys \<Rightarrow> pystr \<Rightarrow> pystr
   \<Rightarrow> response \<times> ('sk, 'pk) active_keys" where
  "download_keys lib timestamp active key_type session_id =
     (case active session_id of
        None \<Rightarrow> (JsonError (Msg ''Session expired or invalid'') 404, active)
      | Some kd \<Rightarrow>
          (if key_type = ascii ''private'' then
             (case ed25519_to_pgp_format lib timestamp (private_key kd) (public_key kd) of
                Inl e \<Rightarrow> (JsonError (MsgExn ''Key generation failed: '' e) 500, active)
              | Inr (private_packet, _) \<Rightarrow>
                  (send_armor
                     (create_pgp_armor private_packet (ascii ''PRIVATE KEY BLOCK'')
                        (Some (ascii ''Generated by Anarchy Auth - '' @ ascii (key_method kd))))
                     (ascii ''anarchy-auth-private-'' @ take 8 session_id @ ascii ''.asc''),
                   active))
           else if key_type = ascii ''public'' then
             (case ed25519_to_pgp_format lib timestamp (private_key kd) (public_key kd) of
                Inl e \<Rightarrow> (JsonError (MsgExn ''Key generation failed: '' e) 500, active)
              | Inr (_, public_packet) \<Rightarrow>
                  (send_armor
                     (create_pgp_armor public_packet (ascii ''PUBLIC KEY BLOCK'')
                        (Some (ascii ''Generated by Anarchy Auth - '' @ ascii (key_method kd))))
                     (ascii ''anarchy-auth-public-'' @ take 8 session_id @ ascii ''.asc''),
                   active))
           else (JsonError (Msg ''Invalid key type'') 400, active)))"

section \<open>Signing and verifying\<close>

definition signed_message_text :: "pystr \<Rightarrow> pystr \<Rightarrow> pystr" where
  "signed_message_text message signature_hex =
     ascii ''-----BEGIN PGP SIGNED MESSAGE-----'' @ newline
     @ ascii ''Hash: SHA256'' @ newline
     @ newline
     @ message @ newline
     @ ascii ''-----BEGIN PGP SIGNATURE-----'' @ newline
     @ ascii ''Comment: Signed with Anarchy Auth biometric key'' @ newline
     @ newline
     @ signature_hex @ newline
     @ ascii ''-----END PGP SIGNATURE-----''"

definition sign_data ::
  "('sk, 'pk) ed25519 \<Rightarrow> ('sk, 'pk) active_keys \<Rightarrow> pystr \<Rightarrow> pystr
   \<Rightarrow> response \<times> ('sk, 'pk) active_keys" where
  "sign_data lib active session_id message =
     (case active session_id of
        None \<Rightarrow> (JsonError (Msg ''Session expired or invalid'') 404, active)
      | Some kd \<Rightarrow>
          (if message = [] then (JsonError (Msg ''No message to sign'') 400, active)
           else (case str_encode message of
                   Inl e \<Rightarrow> (JsonError (MsgExn ''Signing failed: '' e) 500, active)
                 | Inr message_bytes \<Rightarrow>
                     (let signature = sign lib (private_key kd) message_bytes
                      in (JsonSigned (signed_message_text message (bytes_hex signature))
                            (bytes_hex signature) (bytes_hex (sha256 message_bytes)),
                          active)))))"

definition verify_signature ::
  "('sk, 'pk) ed25519 \<Rightarrow> ('sk, 'pk) active_keys \<Rightarrow> pystr \<Rightarrow> pystr \<Rightarrow> pystr
   \<Rightarrow> response \<times> ('sk, 'pk) active_keys" where
  "verify_signature lib active session_id message signature_hex =
     (case active session_id of
        None \<Rightarrow> (JsonError (Msg ''Session expired or invalid'') 404, active)
      | Some kd \<Rightarrow>
          (if message = [] \<or> signature_hex = [] then
             (JsonError (Msg ''Message and signature required'') 400, active)
           else (case bytes_fromhex signature_hex of
                   Inl e \<Rightarrow> (JsonError (MsgExn ''Verification failed: '' e) 500, active)
                 | Inr signature \<Rightarrow>
                     (case str_encode message of
                        Inl e \<Rightarrow> (JsonError (MsgExn ''Verification failed: '' e) 500, active)
                      | Inr message_bytes \<Rightarrow>
                          (case verify lib (public_key kd) signature message_bytes of
                             None \<Rightarrow> (JsonVerdict True ''Signature is valid'', active)
                           | Some _ \<Rightarrow> (JsonVerdict False ''Signature is invalid'', active))))))"

section \<open>Creating a session\<close>

text \<open>
  The collaborators of \<^verbatim>\<open>process_iris_image\<close>: \<^verbatim>\<open>cv2.imread\<close> gives the pixel buffer
  of the image at a path (as \<^verbatim>\<open>flatten().tobytes()\<close> reads it) or \<^verbatim>\<open>None\<close>; the
  flag \<^verbatim>\<open>IRIS_AVAILABLE\<close>; the iris pipeline, which may raise, and whose output holds
  \<^verbatim>\<open>output["error"]\<close> and the iris codes of the template, each as its bytes.
\<close>

datatype eye_side = RightEye | LeftEye

record pipeline_output =
  error :: "pystr option"
  iris_codes :: "bytes list"

record collaborators =
  imread :: "pystr \<Rightarrow> bytes option"
  iris_available :: bool
  iris_pipeline :: "bytes \<Rightarrow> eye_side \<Rightarrow> py_exn + pipeline_output"

text \<open>
  The entropy of a buffer, \<^verbatim>\<open>sha256(data).digest()[:32]\<close>, as \<^verbatim>\<open>process_iris_image\<close>
  computes it in both of its branches (and \<^verbatim>\<open>core_logic.py\<close> at line 33).
\<close>

definition derive_entropy :: "bytes \<Rightarrow> bytes" where
  "derive_entropy data = take 32 (sha256 data)"

text \<open>
  The dictionary \<^verbatim>\<open>process_iris_image\<close> returns: an error, or \<^verbatim>\<open>warning\<close>,
  \<^verbatim>\<open>private_key\<close>, \<^verbatim>\<open>public_key\<close>, \<^verbatim>\<open>iris_codes_count\<close>, \<^verbatim>\<open>method\<close>,
  \<^verbatim>\<open>private_key_obj\<close> and \<^verbatim>\<open>public_key_obj\<close>.
\<close>

datatype ('sk, 'pk) iris_result =
    IrisError error_msg
  | IrisKeys "string option" pystr pystr "nat option" string 'sk 'pk

text \<open>
  The key pair of an entropy and the dictionary built from it; an exception of the
  library is caught by the \<^verbatim>\<open>except Exception\<close> of \<^verbatim>\<open>process_iris_image\<close>.
\<close>

definition keys_from_entropy ::
  "('sk, 'pk) ed25519 \<Rightarrow> bytes \<Rightarrow> string option \<Rightarrow> nat option \<Rightarrow> string
   \<Rightarrow> ('sk, 'pk) iris_result" where
  "keys_from_entropy lib entropy warning count meth =
     (case from_private_bytes lib entropy of
        Inl e \<Rightarrow> IrisError (MsgExn ''Processing error: '' e)
      | Inr priv \<Rightarrow>
          (let pub = public_key_of lib priv
           in IrisKeys warning (bytes_hex (private_bytes lib priv))
                (bytes_hex (public_bytes lib pub)) count meth priv pub))"

definition process_iris_image ::
  "collaborators \<Rightarrow> ('sk, 'pk) ed25519 \<Rightarrow> pystr \<Rightarrow> ('sk, 'pk) iris_result" where
  "process_iris_image col lib image_path =
     (case imread col image_path of
        None \<Rightarrow> IrisError (Msg ''Could not load image file'')
      | Some img_pixels \<Rightarrow>
          (if \<not> iris_available col then
             keys_from_entropy lib (derive_entropy img_pixels)
               (Some ''Using image hash fallback - iris library not available'') None
               ''image_hash''
           else
             (case iris_pipeline col img_pixels RightEye of
                Inl e \<Rightarrow> IrisError (MsgExn ''Processing error: '' e)
              | Inr right \<Rightarrow>
                  (case (if error right \<noteq> None then iris_pipeline col img_pixels LeftEye
                         else Inr right) of
                     Inl e \<Rightarrow> IrisError (MsgExn ''Processing error: '' e)
                   | Inr output \<Rightarrow>
                       (case error output of
                          Some err \<Rightarrow> IrisError (MsgText ''Iris processing failed: '' err)
                        | None \<Rightarrow>
                            (case iris_codes output of
                               [] \<Rightarrow> IrisError (Msg ''No iris codes generated from image'')
                             | code # _ \<Rightarrow>
                                 keys_from_entropy lib (derive_entropy code) None
                                   (Some (length (iris_codes output))) ''iris_biometric''))))))"

text \<open>
  The route \<^verbatim>\<open>/process_iris\<close> from its \<^verbatim>\<open>try\<close> block on (lines 185 to 204; the
  checks of the upload before it return without reading \<^verbatim>\<open>active_keys\<close>).
  \<open>time_repr\<close> is the text of \<^verbatim>\<open>time.time()\<close> and \<open>now\<close> the value of
  \<^verbatim>\<open>datetime.now()\<close>. An exception of \<^verbatim>\<open>.encode()\<close> would leave the route.
\<close>

definition process_iris ::
  "collaborators \<Rightarrow> ('sk, 'pk) ed25519 \<Rightarrow> pystr \<Rightarrow> nat \<Rightarrow> ('sk, 'pk) active_keys \<Rightarrow> pystr
   \<Rightarrow> response \<times> ('sk, 'pk) active_keys" where
  "process_iris col lib time_repr now active temp_path =
     (case process_iris_image col lib temp_path of
        IrisError m \<Rightarrow> (JsonError m 200, active)
      | IrisKeys warning priv_hex pub_hex count meth priv pub \<Rightarrow>
          (case str_encode (time_repr @ pub_hex) of
             Inl e \<Rightarrow> (Uncaught e, active)
           | Inr b \<Rightarrow>
               (let session_id = take 16 (bytes_hex (sha256 b))
                in (JsonKeys warning priv_hex pub_hex count meth session_id,
                    active(session_id \<mapsto>
                      \<lparr>private_key = priv, public_key = pub, created = now,
                       key_method = meth\<rparr>)))))"

section \<open>An instance of the library\<close>

text \<open>
  A small library with the interface of \<open>ed25519\<close>, to show that what the theorems
  below assume of the library can hold: keys are byte strings, the public key is the
  private key reversed, a signature is 64 bytes cut from key and message, and
  \<open>verify\<close> raises \<^verbatim>\<open>InvalidSignature\<close> for every other signature. It is no signature
  scheme; no theorem depends on it but the instances that use it.
\<close>

definition stub_sign :: "bytes \<Rightarrow> bytes \<Rightarrow> bytes" where
  "stub_sign k m = take 64 (k @ m @ replicate 64 0)"

definition stub_lib :: "(bytes, bytes) ed25519" where
  "stub_lib =
     \<lparr>from_private_bytes = (\<lambda>b. if length b = 32 then Inr b else Inl ValueError),
      public_key_of = rev,
      private_bytes = (\<lambda>k. k),
      public_bytes = (\<lambda>k. k),
      sign = stub_sign,
      verify = (\<lambda>pk sg m. if length sg = 64 \<and> sg = stub_sign (rev pk) m then None
                            else Some InvalidSignature)\<rparr>"

section \<open>The armor as the specification words it\<close>

text \<open>
  The body of an armored block as the specification describes it: the base64 text in
  lines of exactly 64 characters, the last one possibly shorter.
\<close>

function split64 :: "pystr \<Rightarrow> pystr list" where
  "split64 s = (if s = [] then [] else take 64 s # split64 (drop 64 s))"
  by pat_completeness auto
termination
  by (relation "measure length") auto

text \<open>
  Reading a rendered block back: \<^verbatim>\<open>text.split('\n')\<close>, the test for the checksum line
  (it starts with \<open>=\<close>), and the body lines, which stand between the first blank line
  and the checksum line.
\<close>

fun str_split :: "nat \<Rightarrow> pystr \<Rightarrow> pystr list" where
  "str_split sep [] = [[]]"
| "str_split sep (c # cs) =
     (if c = sep then [] # str_split sep cs
      else (case str_split sep cs of
              [] \<Rightarrow> [[c]]
            | l # ls \<Rightarrow> (c # l) # ls))"

definition is_checksum_line :: "pystr \<Rightarrow> bool" where
  "is_checksum_line l = (case l of [] \<Rightarrow> False | c # _ \<Rightarrow> c = 61)"

definition armor_body_lines :: "pystr \<Rightarrow> pystr list" where
  "armor_body_lines text =
     takeWhile (\<lambda>l. \<not> is_checksum_line l)
       (drop 1 (dropWhile (\<lambda>l. l \<noteq> []) (str_split 10 text)))"

text \<open>
  A text in groups of four characters, none of which starts with the padding character.
\<close>

fun quads_ok :: "pystr \<Rightarrow> bool" where
  "quads_ok [] = True"
| "quads_ok (w # x # y # z # rest) = (w \<noteq> b64_pad \<and> quads_ok rest)"
| "quads_ok _ = False"

text \<open>
  A dictionary with one session of the small library, for the instances below.
\<close>

definition demo_key :: bytes where
  "demo_key = replicate 32 7"

definition demo_session :: "(bytes, bytes) key_data" where
  "demo_session =
     \<lparr>private_key = demo_key, public_key = rev demo_key, created = 0,
      key_method = ''image_hash''\<rparr>"

definition demo_id :: pystr where
  "demo_id = ascii ''0123456789abcdef''"

definition demo_keys :: "(bytes, bytes) active_keys" where
  "demo_keys = Map.empty(demo_id \<mapsto> demo_session)"

text \<open>
  The sessions of a dictionary hold key pairs of the library: the public key is the one
  of the private key. \<^verbatim>\<open>process_iris\<close>, which alone stores sessions, keeps this.
\<close>

definition key_pairs :: "('sk, 'pk) ed25519 \<Rightarrow> ('sk, 'pk) active_keys \<Rightarrow> bool" where
  "key_pairs lib active =
     (\<forall>session_id kd. active session_id = Some kd \<longrightarrow>
        public_key kd = public_key_of lib (private_key kd))"

text \<open>
  The integer that bytes stand for, most significant byte first
  (\<^verbatim>\<open>int.from_bytes(b, 'big')\<close>); the reading of the four bytes of the timestamp.
\<close>

definition int_from_bytes :: "bytes \<Rightarrow> int" where
  "int_from_bytes bs = foldl (\<lambda>acc b. acc * 256 + uint b) 0 bs"

section \<open>Properties of the encodings\<close>

declare split64.simps [simp del]

lemma be32_bytes_length: "length (be32_bytes w) = 4"
  by (simp add: be32_bytes_def)

lemma sha256_digest_length: "length (sha256_digest s) = 32"
  by (induction s rule: sha256_digest.induct) (simp add: be32_bytes_length)

lemma sha256_length: "length (sha256 m) = 32"
  by (simp add: sha256_def sha256_digest_length)





lemma b64_index_char: "i < 64 \<Longrightarrow> b64_index (b64_char i) = Some i"
  unfolding b64_index_def b64_char_def by (simp; arith)

lemma b64_char_not_pad: "i < 64 \<Longrightarrow> b64_char i \<noteq> b64_pad"
  unfolding b64_char_def b64_pad_def by (simp; arith)

lemma b64_index_pad: "b64_index b64_pad = None"
  by (simp add: b64_index_def b64_pad_def)

lemma b64_arith_first:
  fixes a b :: nat
  assumes "b < 256"
  shows "a div 4 * 4 + (a mod 4 * 16 + b div 16) div 16 = a"
  using assms by (simp add: div_add1_eq)

lemma b64_arith_second:
  fixes a b c :: nat
  assumes "b < 256" "c < 256"
  shows "(a mod 4 * 16 + b div 16) mod 16 * 16 + (b mod 16 * 4 + c div 64) div 4 = b"
proof -
  have "b div 16 < 16" using assms(1) by simp
  moreover have "c div 64 < 4" using assms(2) by simp
  ultimately show ?thesis by simp
qed

lemma b64_arith_third:
  fixes b c :: nat
  assumes "c < 256"
  shows "(b mod 16 * 4 + c div 64) mod 4 * 64 + c mod 64 = c"
proof -
  have "c div 64 < 4" using assms by simp
  then show ?thesis by simp
qed

lemma b64_arith_bounds:
  fixes a b c :: nat
  assumes "a < 256" "b < 256" "c < 256"
  shows "a div 4 < 64" "a mod 4 * 16 + b div 16 < 64" "b mod 16 * 4 + c div 64 < 64"
    "c mod 64 < 64" "a mod 4 * 16 < 64" "b mod 16 * 4 < 64"
proof -
  have m4: "a mod 4 < 4" and m16: "b mod 16 < 16" by simp_all
  have d16: "b div 16 < 16" using assms(2) by simp
  have d64: "c div 64 < 4" using assms(3) by simp
  show "a div 4 < 64" using assms(1) by simp
  show "a mod 4 * 16 + b div 16 < 64" using m4 d16 by linarith
  show "b mod 16 * 4 + c div 64 < 64" using m16 d64 by linarith
  show "c mod 64 < 64" by simp
  show "a mod 4 * 16 < 64" using m4 by linarith
  show "b mod 16 * 4 < 64" using m16 by linarith
qed

lemma unat_byte_lt: "unat (b :: byte) < 256"
  using unsigned_less [of b, where 'a = nat] by simp

lemma b64encode_Nil_iff: "b64encode d = [] \<longleftrightarrow> d = []"
  by (induction d rule: b64encode.induct) simp_all

lemma b64decode_more:
  assumes "rest \<noteq> []"
  shows "b64decode (w # x # y # z # rest) =
     (case (b64_index w, b64_index x, b64_index y, b64_index z) of
        (Some i, Some j, Some k, Some l) \<Rightarrow>
          (case b64decode rest of
             None \<Rightarrow> None
           | Some bs \<Rightarrow>
               Some (of_nat (i * 4 + j div 16) # of_nat (j mod 16 * 16 + k div 4)
                     # of_nat (k mod 4 * 64 + l) # bs))
      | _ \<Rightarrow> None)"
  using assms by (cases rest) auto

lemma b64_group_decodes:
  fixes a b c :: byte
  defines "w \<equiv> b64_char (unat a div 4)"
    and "x \<equiv> b64_char (unat a mod 4 * 16 + unat b div 16)"
    and "y \<equiv> b64_char (unat b mod 16 * 4 + unat c div 64)"
    and "z \<equiv> b64_char (unat c mod 64)"
  shows "b64_index w = Some (unat a div 4)"
    and "b64_index x = Some (unat a mod 4 * 16 + unat b div 16)"
    and "b64_index y = Some (unat b mod 16 * 4 + unat c div 64)"
    and "b64_index z = Some (unat c mod 64)"
    and "y \<noteq> b64_pad" and "z \<noteq> b64_pad"
  unfolding w_def x_def y_def z_def
  using b64_arith_bounds [OF unat_byte_lt [of a] unat_byte_lt [of b] unat_byte_lt [of c]]
  by (simp_all add: b64_index_char b64_char_not_pad)

lemma b64_bytes_back:
  fixes a b c :: byte
  shows "of_nat (unat a div 4 * 4 + (unat a mod 4 * 16 + unat b div 16) div 16) = a"
    and "of_nat ((unat a mod 4 * 16 + unat b div 16) mod 16 * 16
                 + (unat b mod 16 * 4 + unat c div 64) div 4) = b"
    and "of_nat ((unat b mod 16 * 4 + unat c div 64) mod 4 * 64 + unat c mod 64) = c"
  using b64_arith_first [OF unat_byte_lt [of b], of "unat a"]
    b64_arith_second [OF unat_byte_lt [of b] unat_byte_lt [of c], of "unat a"]
    b64_arith_third [OF unat_byte_lt [of c], of "unat b"]
  by simp_all

lemma b64decode_encode: "b64decode (b64encode d) = Some d"
proof (induction d rule: b64encode.induct)
  case 1
  show ?case by simp
next
  case (2 a)
  have "unat a div 4 < 64" "unat a mod 4 * 16 < 64"
    using b64_arith_bounds [OF unat_byte_lt [of a] unat_byte_lt [of a] unat_byte_lt [of a]]
    by simp_all
  moreover have "of_nat (unat a div 4 * 4 + unat a mod 4 * 16 div 16) = a"
    by simp
  ultimately show ?case
    by (simp add: b64_index_char)
next
  case (3 a b)
  have bounds: "unat a div 4 < 64" "unat a mod 4 * 16 + unat b div 16 < 64"
    "unat b mod 16 * 4 < 64"
    using b64_arith_bounds [OF unat_byte_lt [of a] unat_byte_lt [of b] unat_byte_lt [of b]]
    by simp_all
  have inv: "of_nat (unat a div 4 * 4 + (unat a mod 4 * 16 + unat b div 16) div 16) = a"
    "of_nat ((unat a mod 4 * 16 + unat b div 16) mod 16 * 16 + unat b mod 16 * 4 div 4) = b"
    using b64_arith_first [OF unat_byte_lt [of b], of "unat a"]
      b64_arith_second [OF unat_byte_lt [of b], of 0 "unat a"]
    by simp_all
  show ?case
    using bounds inv
    by (simp add: b64_index_char b64_char_not_pad)
next
  case (4 a b c rest)
  note grp = b64_group_decodes
  note inv = b64_bytes_back(1) [of a b] b64_bytes_back(2) [of a b c] b64_bytes_back(3) [of b c]
  show ?case
  proof (cases "rest = []")
    case True
    then show ?thesis
      using grp inv by simp
  next
    case False
    then have "b64encode rest \<noteq> []"
      by (simp add: b64encode_Nil_iff)
    then show ?thesis
      using grp inv "4.IH" by (simp add: b64decode_more)
  qed
qed

lemma foldl_append_one: "foldl (\<lambda>ls i. ls @ [f i]) acc xs = acc @ map f xs"
  by (induction xs arbitrary: acc) simp_all

lemma chunk_count: "s \<noteq> [] \<Longrightarrow> (length s + 63) div 64 = Suc ((length (drop 64 s) + 63) div 64)"
  by (cases "length s < 64") (auto simp: Suc_leI le_div_geq)

lemma slices_split64:
  "map (\<lambda>k. slice s (k * 64) (k * 64 + 64)) [0..<(length s + 63) div 64] = split64 s"
proof (induction s rule: split64.induct)
  case (1 s)
  show ?case
  proof (cases "s = []")
    case True
    then show ?thesis by (simp add: split64.simps)
  next
    case False
    have shift: "slice s (Suc k * 64) (Suc k * 64 + 64) = slice (drop 64 s) (k * 64) (k * 64 + 64)" for k
      by (simp add: slice_def add.commute)
    have first: "slice s 0 64 = take 64 s"
      by (simp add: slice_def)
    have "map (\<lambda>k. slice s (k * 64) (k * 64 + 64)) [0..<(length s + 63) div 64]
        = slice s 0 64 # map (\<lambda>k. slice s (Suc k * 64) (Suc k * 64 + 64))
            [0..<(length (drop 64 s) + 63) div 64]"
      unfolding chunk_count [OF False] by (simp only: upt_conv_Cons zero_less_Suc list.map map_Suc_upt [symmetric] map_map o_def mult_0 add_0)
    also have "\<dots> = take 64 s # split64 (drop 64 s)"
      using first by (simp only: shift "1.IH" [OF False])
    finally show ?thesis
      using False by (simp add: split64.simps [of s])
  qed
qed

lemma py_range_64: "py_range n 64 = map (\<lambda>k. k * 64) [0..<(n + 63) div 64]"
  by (simp add: py_range_def add.commute)

lemma loop_is_split64:
  "foldl (\<lambda>ls i. ls @ [slice s i (i + 64)]) acc (py_range (length s) 64) = acc @ split64 s"
  by (simp only: foldl_append_one py_range_64 map_map o_def slices_split64)

lemma concat_split64: "concat (split64 s) = s"
  by (induction s rule: split64.induct) (simp add: split64.simps)

lemma split64_Nil_iff: "split64 s = [] \<longleftrightarrow> s = []"
  by (simp add: split64.simps [of s])

lemma split64_line_length: "l \<in> set (split64 s) \<Longrightarrow> 0 < length l \<and> length l \<le> 64"
  by (induction s rule: split64.induct) (subst (asm) (2) split64.simps, auto split: if_splits)

lemma split64_butlast: "l \<in> set (butlast (split64 s)) \<Longrightarrow> length l = 64"
proof (induction s rule: split64.induct)
  case (1 s)
  show ?case
  proof (cases "s = []")
    case True
    with "1.prems" show ?thesis by (simp add: split64.simps)
  next
    case False
    show ?thesis
    proof (cases "drop 64 s = []")
      case True
      with False "1.prems" show ?thesis
        by (simp add: split64.simps [of s] split64.simps [of "[]"])
    next
      case rest: False
      then have "64 < length s" by simp
      moreover have "l = take 64 s \<or> l \<in> set (butlast (split64 (drop 64 s)))"
        using "1.prems" False rest by (simp add: split64.simps [of s] split64_Nil_iff)
      ultimately show ?thesis
        using "1.IH" [OF False] by auto
    qed
  qed
qed

lemma b64encode_length: "length (b64encode d) = 4 * ((length d + 2) div 3)"
proof (induction d rule: b64encode.induct)
  case (4 a b c rest)
  have "(length rest + 5) div 3 = Suc ((length rest + 2) div 3)"
    by presburger
  with "4.IH" show ?case by (simp add: add.commute)
qed simp_all

lemma checksum_length: "length (b64encode (take 3 (sha256 data))) = 4"
  by (simp add: b64encode_length sha256_length)

lemma armor_lines_eq:
  "armor_lines data header_type comment =
     [ascii ''-----BEGIN PGP '' @ header_type @ ascii ''-----'']
     @ (case comment of None \<Rightarrow> [] | Some c \<Rightarrow> if c = [] then [] else [ascii ''Comment: '' @ c])
     @ [[]]
     @ split64 (b64encode data)
     @ [ascii ''='' @ b64encode (take 3 (sha256 data)),
        ascii ''-----END PGP '' @ header_type @ ascii ''-----'']"
  by (simp add: armor_lines_def Let_def loop_is_split64 split: option.split)

lemma str_split_no_sep: "sep \<notin> set l \<Longrightarrow> str_split sep l = [l]"
  by (induction l) auto

lemma str_split_append: "sep \<notin> set l \<Longrightarrow> str_split sep (l @ sep # rest) = l # str_split sep rest"
  by (induction l) auto

lemma str_split_join:
  assumes "ls \<noteq> []" and "\<forall>l \<in> set ls. sep \<notin> set l"
  shows "str_split sep (str_join [sep] ls) = ls"
  using assms
proof (induction "[sep]" ls rule: str_join.induct)
  case 1
  then show ?case by simp
next
  case (2 l)
  then show ?case by (simp add: str_split_no_sep)
next
  case (3 l m ls)
  then show ?case by (simp add: str_split_append)
qed

lemma b64_char_range: "43 \<le> b64_char i \<and> b64_char i \<le> 122"
  unfolding b64_char_def by (simp; arith)

lemma b64encode_chars: "c \<in> set (b64encode d) \<Longrightarrow> 43 \<le> c \<and> c \<le> 122"
proof (induction d rule: b64encode.induct)
  case 1
  then show ?case by simp
next
  case (2 a)
  then show ?case
    using b64_char_range [of "unat a div 4"] b64_char_range [of "unat a mod 4 * 16"]
    by (auto simp: b64_pad_def)
next
  case (3 a b)
  then show ?case
    using b64_char_range [of "unat a div 4"]
      b64_char_range [of "unat a mod 4 * 16 + unat b div 16"]
      b64_char_range [of "unat b mod 16 * 4"]
    by (auto simp: b64_pad_def)
next
  case (4 a b c rest)
  then show ?case
    using b64_char_range [of "unat a div 4"]
      b64_char_range [of "unat a mod 4 * 16 + unat b div 16"]
      b64_char_range [of "unat b mod 16 * 4 + unat c div 64"]
      b64_char_range [of "unat c mod 64"]
    by auto
qed

lemma byte_div4_lt: "unat (a :: byte) div 4 < 64"
  using unat_byte_lt [of a] by simp

lemma quads_ok_b64encode: "quads_ok (b64encode d)"
  by (induction d rule: b64encode.induct) (simp_all add: b64_char_not_pad byte_div4_lt)

lemma quads_ok_drop4: "quads_ok s \<Longrightarrow> quads_ok (drop 4 s)"
  by (induction s rule: quads_ok.induct) simp_all

lemma quads_ok_drop_mult4: "quads_ok s \<Longrightarrow> quads_ok (drop (4 * k) s)"
proof (induction k)
  case 0
  then show ?case by simp
next
  case (Suc k)
  have "drop (4 * Suc k) s = drop 4 (drop (4 * k) s)"
    by (simp add: add.commute)
  with Suc show ?case by (simp only: quads_ok_drop4)
qed

lemma quads_ok_drop64: "quads_ok s \<Longrightarrow> quads_ok (drop 64 s)"
  using quads_ok_drop_mult4 [of s 16] by simp

lemma quads_ok_head: "quads_ok (c # cs) \<Longrightarrow> c \<noteq> b64_pad"
  by (cases "c # cs" rule: quads_ok.cases) auto

lemma split64_not_checksum:
  "quads_ok s \<Longrightarrow> l \<in> set (split64 s) \<Longrightarrow> \<not> is_checksum_line l"
proof (induction s rule: split64.induct)
  case (1 s)
  show ?case
  proof (cases "s = []")
    case True
    with "1.prems" show ?thesis by (simp add: split64.simps)
  next
    case False
    then obtain c cs where s: "s = c # cs" by (cases s) auto
    have "c \<noteq> b64_pad"
      using "1.prems"(1) s quads_ok_head by blast
    then have head: "\<not> is_checksum_line (take 64 s)"
      by (simp add: s is_checksum_line_def b64_pad_def)
    have "l = take 64 s \<or> l \<in> set (split64 (drop 64 s))"
      using "1.prems"(2) False by (simp add: split64.simps [of s])
    then show ?thesis
      using head "1.IH" [OF False quads_ok_drop64 [OF "1.prems"(1)]] by blast
  qed
qed

lemma b64encode_no_newline: "10 \<notin> set (b64encode d)"
  using b64encode_chars [of 10 d] by auto

lemma split64_no_newline: "10 \<notin> set s \<Longrightarrow> l \<in> set (split64 s) \<Longrightarrow> 10 \<notin> set l"
proof -
  assume s: "10 \<notin> set s" and l: "l \<in> set (split64 s)"
  have "set l \<subseteq> set (concat (split64 s))" using l by auto
  then show ?thesis using s by (auto simp: concat_split64)
qed

lemma armor_lines_no_newline:
  assumes "10 \<notin> set header_type" and "\<forall>c. comment = Some c \<longrightarrow> 10 \<notin> set c"
  shows "\<forall>l \<in> set (armor_lines data header_type comment). 10 \<notin> set l"
proof -
  have lit: "10 \<notin> set (ascii ''-----BEGIN PGP '')" "10 \<notin> set (ascii ''-----'')"
    "10 \<notin> set (ascii ''Comment: '')" "10 \<notin> set (ascii ''='')"
    "10 \<notin> set (ascii ''-----END PGP '')"
    by (simp_all add: ascii_def)
  have body: "\<forall>l \<in> set (split64 (b64encode data)). 10 \<notin> set l"
    using split64_no_newline [OF b64encode_no_newline] by blast
  show ?thesis
    unfolding armor_lines_eq
    using assms lit body b64encode_no_newline [of "take 3 (sha256 data)"]
    by (auto split: option.splits)
qed

lemma armor_lines_not_Nil: "armor_lines data header_type comment \<noteq> []"
  by (simp add: armor_lines_eq)

lemma takeWhile_body:
  assumes "\<forall>l \<in> set body. \<not> P l" and "P x"
  shows "takeWhile (\<lambda>l. \<not> P l) (body @ x # rest) = body"
  using assms by (induction body) simp_all

lemma armor_body_lines_eq:
  assumes "10 \<notin> set header_type" and "\<forall>c. comment = Some c \<longrightarrow> 10 \<notin> set c"
  shows "armor_body_lines (create_pgp_armor data header_type comment) = split64 (b64encode data)"
proof -
  have split: "str_split 10 (create_pgp_armor data header_type comment)
      = armor_lines data header_type comment"
    unfolding create_pgp_armor_def newline_def
    using armor_lines_not_Nil armor_lines_no_newline [OF assms]
    by (rule str_split_join)
  have hdr: "ascii ''-----BEGIN PGP '' @ header_type @ ascii ''-----'' \<noteq> []"
    "\<And>c. ascii ''Comment: '' @ c \<noteq> []"
    by (simp_all add: ascii_def)
  have after: "drop 1 (dropWhile (\<lambda>l. l \<noteq> []) (armor_lines data header_type comment))
      = split64 (b64encode data)
        @ (ascii ''='' @ b64encode (take 3 (sha256 data)))
        # [ascii ''-----END PGP '' @ header_type @ ascii ''-----'']"
    unfolding armor_lines_eq using hdr by (simp split: option.split)
  have cks: "is_checksum_line (ascii ''='' @ b64encode (take 3 (sha256 data)))"
    by (simp add: is_checksum_line_def ascii_def)
  have body: "\<forall>l \<in> set (split64 (b64encode data)). \<not> is_checksum_line l"
    using split64_not_checksum [OF quads_ok_b64encode] by blast
  show ?thesis
    unfolding armor_body_lines_def split after
    using body cks by (rule takeWhile_body)
qed

lemma demo_keys_lookup: "demo_keys demo_id = Some demo_session"
  by (simp add: demo_keys_def)

lemma str_encode_hi: "str_encode (ascii ''hi'') = Inr [0x68, 0x69]"
  by (simp add: ascii_def utf8_char_def)




lemma stub_verify_short:
  "length sg \<noteq> 64 \<Longrightarrow> verify stub_lib pk sg m = Some InvalidSignature"
  by (simp add: stub_lib_def)



lemma bytes_fromhex_short: "bytes_fromhex (ascii ''abcdef0123'') = Inr [0xab, 0xcd, 0xef, 0x01, 0x23]"
  by (simp add: ascii_def hex_value_def is_space_def)

lemma bytes_fromhex_zz: "bytes_fromhex (ascii ''zz'') = Inl ValueError"
  by (simp add: ascii_def hex_value_def is_space_def)

lemma key_pairs_empty: "key_pairs lib Map.empty"
  by (simp add: key_pairs_def)

lemma keys_from_entropy_pair:
  "keys_from_entropy lib entropy warning count meth = IrisKeys w ph pubh c m priv pub
   \<Longrightarrow> pub = public_key_of lib priv"
  by (auto simp: keys_from_entropy_def Let_def split: sum.splits)

lemma process_iris_image_pair:
  "process_iris_image col lib image_path = IrisKeys w ph pubh c m priv pub
   \<Longrightarrow> pub = public_key_of lib priv"
  by (auto simp: process_iris_image_def dest: keys_from_entropy_pair
      split: option.splits if_splits sum.splits list.splits)

lemma process_iris_key_pairs:
  assumes "key_pairs lib active"
    and "process_iris col lib time_repr now active temp_path = (resp, active')"
  shows "key_pairs lib active'"
proof (cases "process_iris_image col lib temp_path")
  case (IrisError m)
  then show ?thesis
    using assms by (simp add: process_iris_def)
next
  case (IrisKeys w ph pubh c m priv pub)
  then have pub: "pub = public_key_of lib priv"
    by (rule process_iris_image_pair)
  show ?thesis
  proof (cases "str_encode (time_repr @ pubh)")
    case (Inl e)
    then show ?thesis
      using assms IrisKeys by (simp add: process_iris_def)
  next
    case (Inr b)
    then have "active' = active(take 16 (bytes_hex (sha256 b)) \<mapsto>
        \<lparr>private_key = priv, public_key = pub, created = now, key_method = m\<rparr>)"
      using assms(2) IrisKeys by (simp add: process_iris_def Let_def)
    then show ?thesis
      using assms(1) pub by (simp add: key_pairs_def)
  qed
qed


lemma uint_byte_of_int: "0 \<le> k \<Longrightarrow> k < 256 \<Longrightarrow> uint (of_int k :: byte) = k"
  by (simp add: uint_word_of_int take_bit_eq_mod)

lemma uint_byte_of_int_mod: "uint (of_int k :: byte) = k mod 256"
  by (simp add: uint_word_of_int take_bit_eq_mod)

lemma to_bytes4_in_range:
  assumes "0 \<le> n" and "n < 2 ^ 32"
  shows "to_bytes4 n =
     Inr [of_int (n div 2 ^ 24), of_int (n div 2 ^ 16), of_int (n div 2 ^ 8), of_int n]"
  using assms by (simp add: to_bytes4_def)

lemma big_endian_four:
  assumes "0 \<le> n" and "n < 2 ^ 32"
  shows "int_from_bytes
     [of_int (n div 2 ^ 24), of_int (n div 2 ^ 16), of_int (n div 2 ^ 8), of_int n] = n"
proof -
  have top: "n div 2 ^ 24 mod 256 = n div 2 ^ 24"
    using assms by (simp add: div_pos_pos_trivial pos_imp_zdiv_nonneg_iff)
  have s1: "n div 2 ^ 24 * 256 + n div 2 ^ 16 mod 256 = n div 2 ^ 16"
  proof -
    have "n div 2 ^ 16 div 256 = n div 2 ^ 24"
      by (simp add: zdiv_zmult2_eq [symmetric])
    then show ?thesis
      using div_mult_mod_eq [of "n div 2 ^ 16" 256] by simp
  qed
  have s2: "n div 2 ^ 16 * 256 + n div 2 ^ 8 mod 256 = n div 2 ^ 8"
  proof -
    have "n div 2 ^ 8 div 256 = n div 2 ^ 16"
      by (simp add: zdiv_zmult2_eq [symmetric])
    then show ?thesis
      using div_mult_mod_eq [of "n div 2 ^ 8" 256] by simp
  qed
  have s3: "n div 2 ^ 8 * 256 + n mod 256 = n"
    using div_mult_mod_eq [of n 256] by simp
  have "int_from_bytes
      [of_int (n div 2 ^ 24), of_int (n div 2 ^ 16), of_int (n div 2 ^ 8), of_int n]
    = ((n div 2 ^ 24 mod 256 * 256 + n div 2 ^ 16 mod 256) * 256 + n div 2 ^ 8 mod 256) * 256
      + n mod 256"
    unfolding int_from_bytes_def foldl.simps uint_byte_of_int_mod by simp
  also have "\<dots> = n"
    by (simp only: top s1 s2 s3)
  finally show ?thesis .
qed

lemma utf8_char_low: "c < 0xD800 \<Longrightarrow> \<exists>bs. utf8_char c = Inr bs"
  by (simp add: utf8_char_def)

lemma str_encode_low: "\<forall>c \<in> set s. c < 0xD800 \<Longrightarrow> \<exists>bs. str_encode s = Inr bs"
proof (induction s)
  case Nil
  show ?case by simp
next
  case (Cons c cs)
  then obtain bs rest where "utf8_char c = Inr bs" "str_encode cs = Inr rest"
    using utf8_char_low [of c] by auto
  then show ?case by simp
qed

lemma ascii_chars: "c \<in> set (ascii s) \<Longrightarrow> c < 256"
  by (auto simp: ascii_def)

lemma str_join_chars:
  "c \<in> set (str_join sep ls) \<Longrightarrow> c \<in> set sep \<or> (\<exists>l \<in> set ls. c \<in> set l)"
  by (induction sep ls rule: str_join.induct) auto

lemma split64_chars: "l \<in> set (split64 s) \<Longrightarrow> c \<in> set l \<Longrightarrow> c \<in> set s"
proof -
  assume "l \<in> set (split64 s)" and "c \<in> set l"
  then have "c \<in> set (concat (split64 s))" by auto
  then show ?thesis by (simp add: concat_split64)
qed

lemma armor_chars:
  assumes "\<forall>c \<in> set header_type. c < 256" and "\<forall>c \<in> set comment. c < 256"
    and "c \<in> set (create_pgp_armor data header_type (Some comment))"
  shows "c < 256"
proof -
  have b64: "x < 256" if "x \<in> set (b64encode d)" for x d
    using b64encode_chars [OF that] by simp
  have "c \<in> set newline \<or> (\<exists>l \<in> set (armor_lines data header_type (Some comment)). c \<in> set l)"
    using assms(3) unfolding create_pgp_armor_def by (rule str_join_chars)
  then show ?thesis
  proof
    assume "c \<in> set newline"
    then show ?thesis by (simp add: newline_def)
  next
    assume "\<exists>l \<in> set (armor_lines data header_type (Some comment)). c \<in> set l"
    then obtain l where l: "l \<in> set (armor_lines data header_type (Some comment))" and c: "c \<in> set l"
      by blast
    from l consider "l = ascii ''-----BEGIN PGP '' @ header_type @ ascii ''-----''"
      | "l = ascii ''Comment: '' @ comment" | "l = []" | "l \<in> set (split64 (b64encode data))"
      | "l = ascii ''='' @ b64encode (take 3 (sha256 data))"
      | "l = ascii ''-----END PGP '' @ header_type @ ascii ''-----''"
      unfolding armor_lines_eq by (auto split: if_splits)
    then show ?thesis
    proof cases
      case 1
      then show ?thesis using c assms(1) ascii_chars by auto
    next
      case 2
      then show ?thesis using c assms(2) ascii_chars by auto
    next
      case 3
      then show ?thesis using c by simp
    next
      case 4
      then show ?thesis using c split64_chars b64 by blast
    next
      case 5
      then show ?thesis using c ascii_chars b64 by auto
    next
      case 6
      then show ?thesis using c assms(1) ascii_chars by auto
    qed
  qed
qed

lemma armor_encodes:
  assumes "\<forall>c \<in> set header_type. c < 256" and "\<forall>c \<in> set comment. c < 256"
  shows "\<exists>content. str_encode (create_pgp_armor data header_type (Some comment)) = Inr content"
proof (rule str_encode_low, rule ballI)
  fix c
  assume "c \<in> set (create_pgp_armor data header_type (Some comment))"
  then have "c < 256"
    using assms armor_chars by blast
  then show "c < 0xD800" by simp
qed

lemma key_type_names: "ascii ''public'' \<noteq> ascii ''private''"
  by (simp add: ascii_def)

lemma download_private:
  assumes "active session_id = Some kd"
    and "to_bytes4 timestamp = Inr ts"
    and "str_encode
           (create_pgp_armor
              ([0x04] @ ts @ [0x16] @ private_bytes lib (private_key kd)
               @ public_bytes lib (public_key kd))
              (ascii ''PRIVATE KEY BLOCK'')
              (Some (ascii ''Generated by Anarchy Auth - '' @ ascii (key_method kd))))
         = Inr content"
  shows "download_keys lib timestamp active (ascii ''private'') session_id
         = (SendFile content (ascii ''anarchy-auth-private-'' @ take 8 session_id @ ascii ''.asc'')
              ''application/pgp-keys'', active)"
  using assms
  by (simp add: download_keys_def ed25519_to_pgp_format_def send_armor_def Let_def)

lemma download_public:
  assumes "active session_id = Some kd"
    and "to_bytes4 timestamp = Inr ts"
    and "str_encode
           (create_pgp_armor
              ([0x04] @ ts @ [0x16] @ public_bytes lib (public_key kd))
              (ascii ''PUBLIC KEY BLOCK'')
              (Some (ascii ''Generated by Anarchy Auth - '' @ ascii (key_method kd))))
         = Inr content"
  shows "download_keys lib timestamp active (ascii ''public'') session_id
         = (SendFile content (ascii ''anarchy-auth-public-'' @ take 8 session_id @ ascii ''.asc'')
              ''application/pgp-keys'', active)"
  using assms
  by (simp add: download_keys_def ed25519_to_pgp_format_def send_armor_def Let_def
      key_type_names)

lemma download_other:
  assumes "active session_id = Some kd"
    and "key_type \<noteq> ascii ''private''" and "key_type \<noteq> ascii ''public''"
  shows "download_keys lib timestamp active key_type session_id
         = (JsonError (Msg ''Invalid key type'') 400, active)"
  using assms by (simp add: download_keys_def)

lemma comment_chars: "\<forall>c \<in> set (ascii ''Generated by Anarchy Auth - '' @ ascii m). c < 256"
  using ascii_chars by auto

lemma header_chars: "\<forall>c \<in> set (ascii h). c < 256"
  using ascii_chars by auto

section \<open>The claims\<close>

text \<open>
  Claim C3. For non-empty \<open>data\<close>, \<^verbatim>\<open>create_pgp_armor\<close> returns these lines joined by
  single newlines: the line \<^verbatim>\<open>-----BEGIN PGP <header_type>-----\<close>; the line
  \<^verbatim>\<open>Comment: <comment>\<close> when a comment is given (the source tests \<^verbatim>\<open>if comment:\<close>, so
  an empty comment counts as none); an empty line; the base64 text of \<open>data\<close> in lines
  of exactly 64 characters, of which only the last may be shorter (and is not empty); the
  line of \<open>=\<close> and the four base64 characters of the first three bytes of SHA-256 of
  \<open>data\<close>; the line \<^verbatim>\<open>-----END PGP <header_type>-----\<close>.
\<close>

theorem create_pgp_armor_layout:
  assumes "data \<noteq> []"
  shows "create_pgp_armor data header_type comment =
           str_join newline
             ([ascii ''-----BEGIN PGP '' @ header_type @ ascii ''-----'']
              @ (case comment of
                   None \<Rightarrow> []
                 | Some c \<Rightarrow> if c = [] then [] else [ascii ''Comment: '' @ c])
              @ [[]]
              @ split64 (b64encode data)
              @ [ascii ''='' @ b64encode (take 3 (sha256 data)),
                 ascii ''-----END PGP '' @ header_type @ ascii ''-----''])
         \<and> concat (split64 (b64encode data)) = b64encode data
         \<and> split64 (b64encode data) \<noteq> []
         \<and> (\<forall>l \<in> set (butlast (split64 (b64encode data))). length l = 64)
         \<and> 0 < length (last (split64 (b64encode data)))
         \<and> length (last (split64 (b64encode data))) \<le> 64
         \<and> length (b64encode (take 3 (sha256 data))) = 4"
proof -
  have body: "split64 (b64encode data) \<noteq> []"
    using assms by (simp add: split64_Nil_iff b64encode_Nil_iff)
  then have "last (split64 (b64encode data)) \<in> set (split64 (b64encode data))"
    by simp
  then have "0 < length (last (split64 (b64encode data)))
      \<and> length (last (split64 (b64encode data))) \<le> 64"
    by (rule split64_line_length)
  moreover have "\<forall>l \<in> set (butlast (split64 (b64encode data))). length l = 64"
    using split64_butlast by blast
  ultimately show ?thesis
    using body
    by (simp only: create_pgp_armor_def armor_lines_eq concat_split64 checksum_length
        simp_thms)
qed

text \<open>The layout at the two bytes \<^verbatim>\<open>hi\<close>, with no comment.\<close>

theorem create_pgp_armor_layout_witness:
  "create_pgp_armor [0x68, 0x69] (ascii ''PUBLIC KEY BLOCK'') None =
     ascii ''-----BEGIN PGP PUBLIC KEY BLOCK-----'' @ [10]
     @ [10]
     @ ascii ''aGk='' @ [10]
     @ ascii ''='' @ b64encode (take 3 (sha256 [0x68, 0x69])) @ [10]
     @ ascii ''-----END PGP PUBLIC KEY BLOCK-----''
   \<and> split64 (b64encode [0x68, 0x69]) = [ascii ''aGk='']
   \<and> length (b64encode (take 3 (sha256 [0x68, 0x69]))) = 4"
proof -
  have b64: "b64encode [0x68, 0x69] = [97, 71, 107, 61]"
    by (simp add: b64_char_def b64_pad_def)
  have lines: "split64 [97, 71, 107, 61] = [[97, 71, 107, 61]]"
    by (simp add: split64.simps [of "[97, 71, 107, 61]"] split64.simps [of "[]"])
  have nonempty: "[0x68, 0x69 :: byte] \<noteq> []"
    by simp
  note layout = create_pgp_armor_layout [OF nonempty, of "ascii ''PUBLIC KEY BLOCK''" None,
      unfolded b64 lines]
  show ?thesis
    using layout by (simp add: b64 lines newline_def ascii_def del: b64encode.simps)
qed

text \<open>
  Claim C4. The body lines of a rendered block (the lines after the first blank line, up
  to the checksum line) joined together are base64 text that decodes to \<open>data\<close>. The
  header type and the comment hold no newline, as the header types
  \<^verbatim>\<open>PRIVATE KEY BLOCK\<close> and \<^verbatim>\<open>PUBLIC KEY BLOCK\<close> of the service do not; a
  newline in them would add lines to the block. The round trip holds for empty
  \<open>data\<close> as well.
\<close>

theorem armor_body_round_trip:
  assumes "10 \<notin> set header_type" and "\<forall>c. comment = Some c \<longrightarrow> 10 \<notin> set c"
  shows "b64decode (concat (armor_body_lines (create_pgp_armor data header_type comment)))
         = Some data"
  by (simp only: armor_body_lines_eq [OF assms] concat_split64 b64decode_encode)

text \<open>The round trip at the two bytes \<^verbatim>\<open>hi\<close>, with a comment.\<close>

theorem armor_body_round_trip_witness:
  "10 \<notin> set (ascii ''PRIVATE KEY BLOCK'')
   \<and> b64decode (concat (armor_body_lines
        (create_pgp_armor [0x68, 0x69] (ascii ''PRIVATE KEY BLOCK'') (Some (ascii ''demo'')))))
     = Some [0x68, 0x69]"
proof -
  have h: "10 \<notin> set (ascii ''PRIVATE KEY BLOCK'')"
    by (simp add: ascii_def)
  have c: "\<forall>c. Some (ascii ''demo'') = Some c \<longrightarrow> 10 \<notin> set c"
    by (simp add: ascii_def)
  show ?thesis
    using h armor_body_round_trip [OF h c, of "[0x68, 0x69]"] by simp
qed

text \<open>
  Claim C10. For a stored session, \<^verbatim>\<open>verify_signature\<close> returns the error
  \<^verbatim>\<open>Message and signature required\<close> (status 400) when the message or the signature
  string is empty. The result is the same for every library and every other argument:
  nothing is decoded or verified before it.
\<close>

theorem verify_requires_message_and_signature:
  assumes "active session_id = Some kd"
    and "message = [] \<or> signature_hex = []"
  shows "verify_signature lib active session_id message signature_hex
         = (JsonError (Msg ''Message and signature required'') 400, active)"
  using assms by (auto simp: verify_signature_def)

text \<open>An empty message with a signature string that is no hexadecimal text.\<close>

theorem verify_requires_message_and_signature_witness:
  "demo_keys demo_id = Some demo_session
   \<and> verify_signature stub_lib demo_keys demo_id [] (ascii ''zz'')
       = (JsonError (Msg ''Message and signature required'') 400, demo_keys)"
  using verify_requires_message_and_signature
    [of demo_keys demo_id demo_session "[]" "ascii ''zz''" stub_lib]
  by (simp add: demo_keys_lookup)

text \<open>
  Claim C6. For a session id that is not in \<^verbatim>\<open>active_keys\<close>, signing, verifying and
  exporting each return the error \<^verbatim>\<open>Session expired or invalid\<close> with status 404 (the
  source's form of \<open>SessionNotFound\<close>) and leave \<^verbatim>\<open>active_keys\<close> as it was: no
  session is created.
\<close>

theorem unknown_session_not_found:
  assumes "active session_id = None"
  shows "sign_data lib active session_id message
           = (JsonError (Msg ''Session expired or invalid'') 404, active)
       \<and> verify_signature lib active session_id message signature_hex
           = (JsonError (Msg ''Session expired or invalid'') 404, active)
       \<and> download_keys lib timestamp active key_type session_id
           = (JsonError (Msg ''Session expired or invalid'') 404, active)"
  using assms by (simp add: sign_data_def verify_signature_def download_keys_def)

text \<open>The three routes on the empty dictionary.\<close>

theorem unknown_session_not_found_witness:
  "sign_data stub_lib Map.empty demo_id (ascii ''hi'')
     = (JsonError (Msg ''Session expired or invalid'') 404, Map.empty)
   \<and> verify_signature stub_lib Map.empty demo_id (ascii ''hi'') (ascii ''00'')
     = (JsonError (Msg ''Session expired or invalid'') 404, Map.empty)
   \<and> download_keys stub_lib 0 Map.empty (ascii ''private'') demo_id
     = (JsonError (Msg ''Session expired or invalid'') 404, Map.empty)"
  using unknown_session_not_found
    [of Map.empty demo_id stub_lib "ascii ''hi''" "ascii ''00''" 0 "ascii ''private''"]
  by simp



text \<open>
  Claim C1, as the specification states it, fails: a signature string that is
  hexadecimal but decodes to a length other than 64 is handed to the library, and the
  route answers with a verdict. Here ten hexadecimal digits (five bytes) get
  \<^verbatim>\<open>valid = False\<close> with \<^verbatim>\<open>error = None\<close>.
\<close>

theorem short_signature_gets_verdict:
  "bytes_fromhex (ascii ''abcdef0123'') = Inr [0xab, 0xcd, 0xef, 0x01, 0x23]
   \<and> verify_signature stub_lib demo_keys demo_id (ascii ''hi'') (ascii ''abcdef0123'')
       = (JsonVerdict False ''Signature is invalid'', demo_keys)"
proof -
  have "verify stub_lib (public_key demo_session) [0xab, 0xcd, 0xef, 0x01, 0x23] [0x68, 0x69]
      = Some InvalidSignature"
    by (rule stub_verify_short) simp
  moreover have "ascii ''hi'' \<noteq> []" "ascii ''abcdef0123'' \<noteq> []"
    by (simp_all add: ascii_def)
  ultimately show ?thesis
    by (simp add: verify_signature_def demo_keys_lookup bytes_fromhex_short str_encode_hi)
qed

text \<open>
  Claim C1, amended. For a stored session, a non-empty message and a non-empty
  signature string: when the string is no hexadecimal text (\<^verbatim>\<open>bytes.fromhex\<close> raises),
  \<^verbatim>\<open>verify_signature\<close> returns the error \<^verbatim>\<open>Verification failed: ...\<close> with status
  500 and no verdict; when it is hexadecimal text, of whatever decoded length, and the
  message has UTF-8 bytes, the route returns no error but a verdict, which is
  \<^verbatim>\<open>valid = True\<close> exactly when the library's \<open>verify\<close> returns normally on the decoded
  bytes. There is no check of the length in the route.
\<close>

theorem malformed_signature_outcome:
  assumes "active session_id = Some kd"
    and "message \<noteq> []"
    and "signature_hex \<noteq> []"
  shows "(\<forall>e. bytes_fromhex signature_hex = Inl e \<longrightarrow>
            verify_signature lib active session_id message signature_hex
            = (JsonError (MsgExn ''Verification failed: '' e) 500, active))
       \<and> (\<forall>signature message_bytes.
            bytes_fromhex signature_hex = Inr signature \<longrightarrow>
            str_encode message = Inr message_bytes \<longrightarrow>
            verify_signature lib active session_id message signature_hex
            = (if verify lib (public_key kd) signature message_bytes = None
               then (JsonVerdict True ''Signature is valid'', active)
               else (JsonVerdict False ''Signature is invalid'', active)))"
  using assms by (auto simp: verify_signature_def)

text \<open>A string that is no hexadecimal text, and one of ten hexadecimal digits.\<close>

theorem malformed_signature_outcome_witness:
  "verify_signature stub_lib demo_keys demo_id (ascii ''hi'') (ascii ''zz'')
     = (JsonError (MsgExn ''Verification failed: '' ValueError) 500, demo_keys)
   \<and> verify_signature stub_lib demo_keys demo_id (ascii ''hi'') (ascii ''abcdef0123'')
     = (if verify stub_lib (public_key demo_session) [0xab, 0xcd, 0xef, 0x01, 0x23] [0x68, 0x69]
           = None
        then (JsonVerdict True ''Signature is valid'', demo_keys)
        else (JsonVerdict False ''Signature is invalid'', demo_keys))"
proof -
  have m: "ascii ''hi'' \<noteq> []" and z: "ascii ''zz'' \<noteq> []" and s: "ascii ''abcdef0123'' \<noteq> []"
    by (simp_all add: ascii_def)
  note bad = malformed_signature_outcome
    [where active = demo_keys and session_id = demo_id and lib = stub_lib,
     OF demo_keys_lookup m z, THEN conjunct1, rule_format, OF bytes_fromhex_zz]
  note short = malformed_signature_outcome
    [where active = demo_keys and session_id = demo_id and lib = stub_lib,
     OF demo_keys_lookup m s, THEN conjunct2, rule_format, OF bytes_fromhex_short str_encode_hi]
  show ?thesis
    using bad short by (rule conjI)
qed




text \<open>
  Claim C9. For a stored session, a time stamp that fits four bytes
  (\<^verbatim>\<open>to_bytes(4, 'big')\<close> raises otherwise) and key bytes of 32 bytes each, as the
  library gives them: exporting the private key sends the armor, under the header
  \<^verbatim>\<open>PRIVATE KEY BLOCK\<close>, of the 70 bytes \<open>0x04\<close>, the four bytes \<open>ts\<close> of the time
  stamp (most significant first), \<open>0x16\<close>, the private key and the public key;
  exporting the public key sends the armor, under \<^verbatim>\<open>PUBLIC KEY BLOCK\<close>, of the 38
  bytes \<open>0x04\<close>, \<open>ts\<close>, \<open>0x16\<close> and the public key. Every other key type gets the
  error \<^verbatim>\<open>Invalid key type\<close> with status 400.
\<close>

theorem download_keys_packets:
  assumes "active session_id = Some kd"
    and "0 \<le> timestamp" and "timestamp < 2 ^ 32"
    and "length (private_bytes lib (private_key kd)) = 32"
    and "length (public_bytes lib (public_key kd)) = 32"
  shows "\<exists>ts private_packet public_packet private_content public_content.
           to_bytes4 timestamp = Inr ts \<and> length ts = 4 \<and> int_from_bytes ts = timestamp
         \<and> private_packet = [0x04] @ ts @ [0x16] @ private_bytes lib (private_key kd)
                              @ public_bytes lib (public_key kd)
         \<and> length private_packet = 70
         \<and> public_packet = [0x04] @ ts @ [0x16] @ public_bytes lib (public_key kd)
         \<and> length public_packet = 38
         \<and> str_encode
               (create_pgp_armor private_packet (ascii ''PRIVATE KEY BLOCK'')
                  (Some (ascii ''Generated by Anarchy Auth - '' @ ascii (key_method kd))))
             = Inr private_content
         \<and> download_keys lib timestamp active (ascii ''private'') session_id
             = (SendFile private_content
                  (ascii ''anarchy-auth-private-'' @ take 8 session_id @ ascii ''.asc'')
                  ''application/pgp-keys'', active)
         \<and> str_encode
               (create_pgp_armor public_packet (ascii ''PUBLIC KEY BLOCK'')
                  (Some (ascii ''Generated by Anarchy Auth - '' @ ascii (key_method kd))))
             = Inr public_content
         \<and> download_keys lib timestamp active (ascii ''public'') session_id
             = (SendFile public_content
                  (ascii ''anarchy-auth-public-'' @ take 8 session_id @ ascii ''.asc'')
                  ''application/pgp-keys'', active)
         \<and> (\<forall>key_type. key_type \<noteq> ascii ''private'' \<longrightarrow> key_type \<noteq> ascii ''public'' \<longrightarrow>
                download_keys lib timestamp active key_type session_id
                = (JsonError (Msg ''Invalid key type'') 400, active))"
proof -
  define ts :: bytes where
    "ts = [of_int (timestamp div 2 ^ 24), of_int (timestamp div 2 ^ 16),
           of_int (timestamp div 2 ^ 8), of_int timestamp]"
  define private_packet where
    "private_packet = [0x04] @ ts @ [0x16] @ private_bytes lib (private_key kd)
                      @ public_bytes lib (public_key kd)"
  define public_packet where
    "public_packet = [0x04] @ ts @ [0x16] @ public_bytes lib (public_key kd)"
  have ts: "to_bytes4 timestamp = Inr ts"
    unfolding ts_def using assms(2,3) by (rule to_bytes4_in_range)
  have len: "length ts = 4"
    by (simp add: ts_def)
  have be: "int_from_bytes ts = timestamp"
    unfolding ts_def using assms(2,3) by (rule big_endian_four)
  have len_private: "length private_packet = 70"
    by (simp add: private_packet_def len assms(4,5))
  have len_public: "length public_packet = 38"
    by (simp add: public_packet_def len assms(5))
  obtain private_content where private_content:
    "str_encode
       (create_pgp_armor private_packet (ascii ''PRIVATE KEY BLOCK'')
          (Some (ascii ''Generated by Anarchy Auth - '' @ ascii (key_method kd))))
     = Inr private_content"
    using armor_encodes [OF header_chars comment_chars] by blast
  obtain public_content where public_content:
    "str_encode
       (create_pgp_armor public_packet (ascii ''PUBLIC KEY BLOCK'')
          (Some (ascii ''Generated by Anarchy Auth - '' @ ascii (key_method kd))))
     = Inr public_content"
    using armor_encodes [OF header_chars comment_chars] by blast
  have sent_private:
    "download_keys lib timestamp active (ascii ''private'') session_id
     = (SendFile private_content
          (ascii ''anarchy-auth-private-'' @ take 8 session_id @ ascii ''.asc'')
          ''application/pgp-keys'', active)"
    using assms(1) ts private_content [unfolded private_packet_def] by (rule download_private)
  have sent_public:
    "download_keys lib timestamp active (ascii ''public'') session_id
     = (SendFile public_content
          (ascii ''anarchy-auth-public-'' @ take 8 session_id @ ascii ''.asc'')
          ''application/pgp-keys'', active)"
    using assms(1) ts public_content [unfolded public_packet_def] by (rule download_public)
  have other: "\<forall>key_type. key_type \<noteq> ascii ''private'' \<longrightarrow> key_type \<noteq> ascii ''public'' \<longrightarrow>
      download_keys lib timestamp active key_type session_id
      = (JsonError (Msg ''Invalid key type'') 400, active)"
    using assms(1) by (simp add: download_other)
  show ?thesis
    using ts len be private_packet_def len_private public_packet_def len_public
      private_content sent_private public_content sent_public other
    by blast
qed

text \<open>
  The session of \<open>demo_keys\<close> at the time stamp 1700000000, whose four bytes are
  \<open>65 53 F1 00\<close>, and the key type \<^verbatim>\<open>secret\<close>.
\<close>

theorem download_keys_packets_witness:
  "to_bytes4 1700000000 = Inr [0x65, 0x53, 0xF1, 0x00]
   \<and> int_from_bytes [0x65, 0x53, 0xF1, 0x00] = 1700000000
   \<and> length ([0x04, 0x65, 0x53, 0xF1, 0x00, 0x16] @ demo_key @ rev demo_key) = 70
   \<and> (\<exists>private_content.
         str_encode
           (create_pgp_armor ([0x04, 0x65, 0x53, 0xF1, 0x00, 0x16] @ demo_key @ rev demo_key)
              (ascii ''PRIVATE KEY BLOCK'')
              (Some (ascii ''Generated by Anarchy Auth - '' @ ascii ''image_hash'')))
         = Inr private_content
       \<and> download_keys stub_lib 1700000000 demo_keys (ascii ''private'') demo_id
         = (SendFile private_content
              (ascii ''anarchy-auth-private-'' @ ascii ''01234567'' @ ascii ''.asc'')
              ''application/pgp-keys'', demo_keys))
   \<and> (\<exists>public_content.
         str_encode
           (create_pgp_armor ([0x04, 0x65, 0x53, 0xF1, 0x00, 0x16] @ rev demo_key)
              (ascii ''PUBLIC KEY BLOCK'')
              (Some (ascii ''Generated by Anarchy Auth - '' @ ascii ''image_hash'')))
         = Inr public_content
       \<and> download_keys stub_lib 1700000000 demo_keys (ascii ''public'') demo_id
         = (SendFile public_content
              (ascii ''anarchy-auth-public-'' @ ascii ''01234567'' @ ascii ''.asc'')
              ''application/pgp-keys'', demo_keys))
   \<and> download_keys stub_lib 1700000000 demo_keys (ascii ''secret'') demo_id
       = (JsonError (Msg ''Invalid key type'') 400, demo_keys)"
proof -
  have range: "(0 :: int) \<le> 1700000000" "(1700000000 :: int) < 2 ^ 32"
    by simp_all
  have priv: "private_bytes stub_lib (private_key demo_session) = demo_key"
    and pub: "public_bytes stub_lib (public_key demo_session) = rev demo_key"
    and meth: "key_method demo_session = ''image_hash''"
    by (simp_all add: stub_lib_def demo_session_def)
  have lens: "length (private_bytes stub_lib (private_key demo_session)) = 32"
    "length (public_bytes stub_lib (public_key demo_session)) = 32"
    by (simp_all add: priv pub demo_key_def)
  have id8: "take 8 demo_id = ascii ''01234567''"
    by (simp add: demo_id_def ascii_def)
  have stamp: "to_bytes4 1700000000 = Inr [0x65, 0x53, 0xF1, 0x00]"
    by (simp add: to_bytes4_def)
  have other: "ascii ''secret'' \<noteq> ascii ''private''" "ascii ''secret'' \<noteq> ascii ''public''"
    by (simp_all add: ascii_def)
  from download_keys_packets
    [where active = demo_keys and session_id = demo_id and lib = stub_lib,
     OF demo_keys_lookup range lens]
  obtain ts private_packet public_packet private_content public_content where
    ts: "to_bytes4 1700000000 = Inr ts"
    and be: "int_from_bytes ts = 1700000000"
    and pp: "private_packet = [0x04] @ ts @ [0x16]
               @ private_bytes stub_lib (private_key demo_session)
               @ public_bytes stub_lib (public_key demo_session)"
    and lp: "length private_packet = 70"
    and pubp: "public_packet = [0x04] @ ts @ [0x16]
               @ public_bytes stub_lib (public_key demo_session)"
    and pc: "str_encode
               (create_pgp_armor private_packet (ascii ''PRIVATE KEY BLOCK'')
                  (Some (ascii ''Generated by Anarchy Auth - '' @ ascii (key_method demo_session))))
             = Inr private_content"
    and dp: "download_keys stub_lib 1700000000 demo_keys (ascii ''private'') demo_id
             = (SendFile private_content
                  (ascii ''anarchy-auth-private-'' @ take 8 demo_id @ ascii ''.asc'')
                  ''application/pgp-keys'', demo_keys)"
    and pubc: "str_encode
               (create_pgp_armor public_packet (ascii ''PUBLIC KEY BLOCK'')
                  (Some (ascii ''Generated by Anarchy Auth - '' @ ascii (key_method demo_session))))
             = Inr public_content"
    and dpub: "download_keys stub_lib 1700000000 demo_keys (ascii ''public'') demo_id
             = (SendFile public_content
                  (ascii ''anarchy-auth-public-'' @ take 8 demo_id @ ascii ''.asc'')
                  ''application/pgp-keys'', demo_keys)"
    and rest: "\<forall>key_type. key_type \<noteq> ascii ''private'' \<longrightarrow> key_type \<noteq> ascii ''public'' \<longrightarrow>
                download_keys stub_lib 1700000000 demo_keys key_type demo_id
                = (JsonError (Msg ''Invalid key type'') 400, demo_keys)"
    by (elim exE conjE)
  have tsv: "ts = [0x65, 0x53, 0xF1, 0x00]"
    using ts stamp by simp
  have ppv: "private_packet = [0x04, 0x65, 0x53, 0xF1, 0x00, 0x16] @ demo_key @ rev demo_key"
    by (simp add: pp tsv priv pub)
  have pubpv: "public_packet = [0x04, 0x65, 0x53, 0xF1, 0x00, 0x16] @ rev demo_key"
    by (simp add: pubp tsv pub)
  have c1: "int_from_bytes [0x65, 0x53, 0xF1, 0x00] = 1700000000"
    using be by (simp only: tsv)
  have c2: "length ([0x04, 0x65, 0x53, 0xF1, 0x00, 0x16] @ demo_key @ rev demo_key) = 70"
    using lp by (simp only: ppv)
  have c3: "\<exists>private_content.
         str_encode
           (create_pgp_armor ([0x04, 0x65, 0x53, 0xF1, 0x00, 0x16] @ demo_key @ rev demo_key)
              (ascii ''PRIVATE KEY BLOCK'')
              (Some (ascii ''Generated by Anarchy Auth - '' @ ascii ''image_hash'')))
         = Inr private_content
       \<and> download_keys stub_lib 1700000000 demo_keys (ascii ''private'') demo_id
         = (SendFile private_content
              (ascii ''anarchy-auth-private-'' @ ascii ''01234567'' @ ascii ''.asc'')
              ''application/pgp-keys'', demo_keys)"
    using pc dp by (simp only: ppv meth id8) blast
  have c4: "\<exists>public_content.
         str_encode
           (create_pgp_armor ([0x04, 0x65, 0x53, 0xF1, 0x00, 0x16] @ rev demo_key)
              (ascii ''PUBLIC KEY BLOCK'')
              (Some (ascii ''Generated by Anarchy Auth - '' @ ascii ''image_hash'')))
         = Inr public_content
       \<and> download_keys stub_lib 1700000000 demo_keys (ascii ''public'') demo_id
         = (SendFile public_content
              (ascii ''anarchy-auth-public-'' @ ascii ''01234567'' @ ascii ''.asc'')
              ''application/pgp-keys'', demo_keys)"
    using pubc dpub by (simp only: pubpv meth id8) blast
  have c5: "download_keys stub_lib 1700000000 demo_keys (ascii ''secret'') demo_id
       = (JsonError (Msg ''Invalid key type'') 400, demo_keys)"
    using rest other by blast
  show ?thesis
    using stamp c1 c2 c3 c4 c5 by (intro conjI)
qed

end
